theory Spec2Isabelle
  imports Main "HOL-Library.Sublist" "HOL-Library.AList"
begin

section \<open>Python strings\<close>

text \<open>
  A Python \<open>str\<close> is modelled as a HOL \<open>string\<close>, a list of characters, each a code
  point below 256. The string methods used by \<open>transcribe_pro.py\<close> are written out
  below for that range.
\<close>

definition isspace :: "char \<Rightarrow> bool" where
  \<comment> \<open>\<open>str.isspace\<close> on one character: TAB, LF, VT, FF, CR, FS, GS, RS, US, SPACE, NEL, NBSP.\<close>
  "isspace c = ((of_char c :: nat) \<in> {9, 10, 11, 12, 13, 28, 29, 30, 31, 32, 133, 160})"

definition strip :: "string \<Rightarrow> string" where
  \<comment> \<open>\<open>s.strip()\<close>\<close>
  "strip s = rev (dropWhile isspace (rev (dropWhile isspace s)))"

fun split_ws :: "string \<Rightarrow> string \<Rightarrow> string list" where
  \<comment> \<open>\<open>s.split()\<close> with no separator; the first argument is the current word, reversed.\<close>
  "split_ws w [] = (if w = [] then [] else [rev w])"
| "split_ws w (c # cs) =
     (if isspace c then (if w = [] then split_ws [] cs else rev w # split_ws [] cs)
      else split_ws (c # w) cs)"

definition py_split_ws :: "string \<Rightarrow> string list" where
  "py_split_ws s = split_ws [] s"

fun join :: "string \<Rightarrow> string list \<Rightarrow> string" where
  \<comment> \<open>\<open>sep.join(xs)\<close>\<close>
  "join sep [] = []"
| "join sep [x] = x"
| "join sep (x # y # ys) = x @ sep @ join sep (y # ys)"

fun split_on :: "string \<Rightarrow> string \<Rightarrow> string \<Rightarrow> string list" where
  \<comment> \<open>\<open>s.split(sep)\<close> for a non-empty separator: a scan from the left that, at each
      match, closes the current piece (second argument, reversed) and continues after the
      separator.\<close>
  "split_on sep acc [] = [rev acc]"
| "split_on sep acc (c # cs) =
     (if sep \<noteq> [] \<and> prefix sep (c # cs)
      then rev acc # split_on sep [] (drop (length sep - 1) cs)
      else split_on sep (c # acc) cs)"

definition py_split :: "string \<Rightarrow> string \<Rightarrow> string list" where
  "py_split s sep = split_on sep [] s"

definition endswith :: "string \<Rightarrow> string \<Rightarrow> bool" where
  "endswith s suf = suffix suf s"

definition lower_char :: "char \<Rightarrow> char" where
  \<comment> \<open>\<open>str.lower\<close> on one code point below 256: A-Z, and the Latin-1 capitals
      U+00C0..U+00DE except the multiplication sign U+00D7.\<close>
  "lower_char c =
     (let n = (of_char c :: nat) in
      if (65 \<le> n \<and> n \<le> 90) \<or> (192 \<le> n \<and> n \<le> 222 \<and> n \<noteq> 215)
      then char_of (n + 32) else c)"

definition lower :: "string \<Rightarrow> string" where
  "lower s = map lower_char s"

section \<open>Exceptions\<close>

text \<open>
  A Python call either returns or raises; a call that may raise has a result of type
  \<open>exn + 'a\<close>, with \<open>Inl\<close> the exception. All exceptions here derive from \<open>Exception\<close>, which
  is what the handlers of the program catch. Printing to the console does not raise.
\<close>

datatype exn =
    FileNotFoundError
  | FileExistsError
  | IsADirectoryError
  | UnicodeDecodeError
  | KeyError string
  | ValueError
  | TypeError
  | ServiceError string

section \<open>The chunking of \<open>summarize_text\<close>\<close>

definition py_range :: "nat \<Rightarrow> int \<Rightarrow> exn + nat list" where
  \<comment> \<open>\<open>range(0, n, step)\<close>: a zero step raises, a negative step gives the empty range.\<close>
  "py_range n step =
     (if step = 0 then Inl ValueError
      else if step < 0 then Inr []
      else Inr (map (\<lambda>k. k * nat step) [0 ..< (n + nat step - 1) div nat step]))"

definition slice :: "'a list \<Rightarrow> nat \<Rightarrow> nat \<Rightarrow> 'a list" where
  \<comment> \<open>\<open>xs[i:j]\<close> for \<open>0 \<le> i \<le> j\<close>\<close>
  "slice xs i j = take (j - i) (drop i xs)"

definition chunk_text :: "string \<Rightarrow> int \<Rightarrow> exn + string list" where
  \<comment> \<open>lines 30-31 of \<open>summarize_text\<close>\<close>
  "chunk_text text max_chunk_length =
     (let words = py_split_ws text in
      case py_range (length words) max_chunk_length of
        Inl e \<Rightarrow> Inl e
      | Inr is \<Rightarrow> Inr (map (\<lambda>i. join '' '' (slice words i (i + nat max_chunk_length))) is))"


definition is_word :: "string \<Rightarrow> bool" where
  \<comment> \<open>what \<open>str.split()\<close> returns: non-empty pieces free of whitespace\<close>
  "is_word w = (w \<noteq> [] \<and> (\<forall>c \<in> set w. \<not> isspace c))"

section \<open>POSIX paths\<close>

definition rfind :: "string \<Rightarrow> char \<Rightarrow> int" where
  \<comment> \<open>\<open>s.rfind(c)\<close>: the last index of \<open>c\<close>, or -1\<close>
  "rfind s c =
     (if c \<in> set s then int (length s) - 1 - int (length (takeWhile (\<lambda>x. x \<noteq> c) (rev s)))
      else - 1)"

definition basename :: "string \<Rightarrow> string" where
  \<comment> \<open>\<open>os.path.basename\<close>: what follows the last slash\<close>
  "basename p = drop (nat (rfind p CHR ''/'' + 1)) p"

definition splitext :: "string \<Rightarrow> string \<times> string" where
  \<comment> \<open>\<open>os.path.splitext\<close>: split at the last dot of the last component, unless that
      component has only dots before it.\<close>
  "splitext p =
     (let sepIndex = rfind p CHR ''/''; dotIndex = rfind p CHR ''.'' in
      if dotIndex > sepIndex
         \<and> list_ex (\<lambda>c. c \<noteq> CHR ''.'') (slice p (nat (sepIndex + 1)) (nat dotIndex))
      then (take (nat dotIndex) p, drop (nat dotIndex) p)
      else (p, []))"

definition path_join :: "string \<Rightarrow> string \<Rightarrow> string" where
  \<comment> \<open>\<open>os.path.join(a, b)\<close>\<close>
  "path_join a b =
     (if prefix ''/'' b then b
      else if a = [] \<or> endswith a ''/'' then a @ b
      else a @ ''/'' @ b)"

section \<open>The file system and the console\<close>

text \<open>
  The file system is a flat table from paths to nodes, kept as an association list so
  that a run can be evaluated. A text file holds the characters stored on disk; a media
  file is any file whose bytes are not UTF-8 text. Paths are opaque keys: a file does not
  need its parent directory in the table. The platform is POSIX: the path separator is
  the slash and writing in text mode stores the characters as they are. Opening a
  directory for reading or writing raises; reading a media file as text raises. The
  console is the list of events, in order: what is printed, and each call of a loaded
  model.
\<close>

datatype fnode = Dir | Text string | Media

type_synonym fs = "(string \<times> fnode) list"

datatype message =
    Summarizing
  | Summary_done
  | Summary_failed exn
  | Transcribe_failed string exn
  | Using_device string
  | Loading_whisper string
  | Whisper_loaded
  | Loading_summarizer
  | Summarizer_loaded
  | Folder_not_found string
  | No_media_found string
  | Found_files nat
  | Denoise_failed string exn
  | Finished_banner
  | Succeeded nat
  | Failed nat
  | Saved_in string

datatype event =
    Print message
  | Load_whisper string string
  | Load_pipeline int
  | Transcribe_call string string
  | Summarizer_call "string list"

record world =
  fs :: fs
  events :: "event list"

definition emit :: "event \<Rightarrow> world \<Rightarrow> world" where
  "emit e w = w\<lparr>events := events w @ [e]\<rparr>"

definition say :: "message \<Rightarrow> world \<Rightarrow> world" where
  "say m w = emit (Print m) w"

definition path_exists :: "world \<Rightarrow> string \<Rightarrow> bool" where
  "path_exists w p = (map_of (fs w) p \<noteq> None)"

definition isdir :: "world \<Rightarrow> string \<Rightarrow> bool" where
  "isdir w p = (map_of (fs w) p = Some Dir)"

fun universal_newlines :: "bool \<Rightarrow> string \<Rightarrow> string" where
  \<comment> \<open>text-mode reading: CR LF and a lone CR are read as LF. The flag says that the
      previous character was a CR.\<close>
  "universal_newlines after_cr [] = []"
| "universal_newlines after_cr (c # cs) =
     (if c = CHR 0x0D then CHR 0x0A # universal_newlines True cs
      else if c = CHR 0x0A \<and> after_cr then universal_newlines False cs
      else c # universal_newlines False cs)"

definition read_text :: "world \<Rightarrow> string \<Rightarrow> exn + string" where
  \<comment> \<open>\<open>open(p, 'r', encoding='utf-8').read()\<close>\<close>
  "read_text w p =
     (case map_of (fs w) p of
        None \<Rightarrow> Inl FileNotFoundError
      | Some Dir \<Rightarrow> Inl IsADirectoryError
      | Some Media \<Rightarrow> Inl UnicodeDecodeError
      | Some (Text s) \<Rightarrow> Inr (universal_newlines False s))"

definition write_text :: "world \<Rightarrow> string \<Rightarrow> string \<Rightarrow> exn + world" where
  \<comment> \<open>\<open>open(p, 'w', encoding='utf-8').write(s)\<close>\<close>
  "write_text w p s =
     (case map_of (fs w) p of
        Some Dir \<Rightarrow> Inl IsADirectoryError
      | _ \<Rightarrow> Inr (w\<lparr>fs := AList.update p (Text s) (fs w)\<rparr>))"

definition makedirs :: "world \<Rightarrow> string \<Rightarrow> exn + world" where
  \<comment> \<open>\<open>os.makedirs(p, exist_ok=True)\<close>\<close>
  "makedirs w p =
     (case map_of (fs w) p of
        None \<Rightarrow> Inr (w\<lparr>fs := AList.update p Dir (fs w)\<rparr>)
      | Some Dir \<Rightarrow> Inr w
      | Some _ \<Rightarrow> Inl FileExistsError)"

section \<open>The services\<close>

text \<open>
  The speech-recognition model, the summarization pipeline, the audio library and the
  directory listing are parameters. A service that reads files is a function of the file
  system and the path. Time stamps (\<open>'t\<close>) and sample buffers (\<open>'a\<close>) are floating-point
  data and stay abstract; \<open>fmt2f\<close> is the format \<open>:.2f\<close>.
\<close>

record 't segment =
  seg_start :: "'t option"
  seg_end :: "'t option"
  seg_text :: "string option"

record 't whisper_result =
  res_text :: "string option"
  res_segments :: "'t segment list option"

type_synonym 't whisper = "fs \<Rightarrow> string \<Rightarrow> string \<Rightarrow> exn + 't whisper_result"

type_synonym summarizer = "string list \<Rightarrow> exn + string option list"

record ('t, 'a) env =
  cuda_is_available :: bool
  load_model :: "string \<Rightarrow> string \<Rightarrow> exn + 't whisper"
  pipeline :: "int \<Rightarrow> exn + summarizer"
  listdir :: "fs \<Rightarrow> string \<Rightarrow> exn + string list"
  sf_read :: "fs \<Rightarrow> string \<Rightarrow> exn + ('a \<times> int)"
  ndim :: "'a \<Rightarrow> nat"
  mean_axis1 :: "'a \<Rightarrow> exn + 'a"
  reduce_noise :: "'a \<Rightarrow> int \<Rightarrow> exn + 'a"
  sf_write :: "fs \<Rightarrow> string \<Rightarrow> 'a \<Rightarrow> int \<Rightarrow> exn option"
  fmt2f :: "'t \<Rightarrow> string"

record args =
  audio_folder :: string
  output_folder :: string
  model_size :: string
  language :: string
  clean_noise :: bool
  summarize :: bool

section \<open>\<open>summarize_text\<close>\<close>

definition sentinel :: string where
  "sentinel = ''[Gagal membuat ringkasan]''"

fun summary_texts :: "string option list \<Rightarrow> exn + string list" where
  \<comment> \<open>\<open>[summ['summary_text'] for summ in summaries]\<close>\<close>
  "summary_texts [] = Inr []"
| "summary_texts (None # rest) = Inl (KeyError ''summary_text'')"
| "summary_texts (Some t # rest) =
     (case summary_texts rest of Inl e \<Rightarrow> Inl e | Inr ts \<Rightarrow> Inr (t # ts))"

definition summarize_text ::
  "string \<Rightarrow> summarizer option \<Rightarrow> int \<Rightarrow> world \<Rightarrow> exn + (string \<times> world)" where
  "summarize_text text summarizer max_chunk_length w =
     (let w1 = say Summarizing w in
      case chunk_text text max_chunk_length of
        Inl e \<Rightarrow> Inr (sentinel, say (Summary_failed e) w1)
      | Inr chunks \<Rightarrow>
          (case summarizer of
             None \<Rightarrow> Inr (sentinel, say (Summary_failed TypeError) w1)
           | Some summarizer_fn \<Rightarrow>
               (let w2 = emit (Summarizer_call chunks) w1 in
                case summarizer_fn chunks of
                  Inl e \<Rightarrow> Inr (sentinel, say (Summary_failed e) w2)
                | Inr summaries \<Rightarrow>
                    (case summary_texts summaries of
                       Inl e \<Rightarrow> Inr (sentinel, say (Summary_failed e) w2)
                     | Inr texts \<Rightarrow> Inr (join '' '' texts, say Summary_done w2)))))"

section \<open>\<open>transcribe_audio\<close>\<close>

definition marker :: string where
  "marker = ''--- TRANSKRIPSI LENGKAP ---''"

definition output_path_for :: "string \<Rightarrow> string \<Rightarrow> string" where
  \<comment> \<open>lines 55-59\<close>
  "output_path_for file_path out_folder =
     (let base_name = fst (splitext (basename file_path));
          base_name' = (if endswith base_name ''_cleaned''
                        then take (length base_name - 8) base_name else base_name)
      in path_join out_folder (base_name' @ ''.txt''))"

definition format_segment :: "('t \<Rightarrow> string) \<Rightarrow> 't segment \<Rightarrow> exn + string" where
  \<comment> \<open>line 74; a missing key of the segment raises\<close>
  "format_segment fmt seg =
     (case seg_start seg of
        None \<Rightarrow> Inl (KeyError ''start'')
      | Some a \<Rightarrow>
          (case seg_end seg of
             None \<Rightarrow> Inl (KeyError ''end'')
           | Some b \<Rightarrow>
               (case seg_text seg of
                  None \<Rightarrow> Inl (KeyError ''text'')
                | Some t \<Rightarrow> Inr (''['' @ fmt a @ ''s - '' @ fmt b @ ''s] '' @ strip t))))"

fun format_segments :: "('t \<Rightarrow> string) \<Rightarrow> 't segment list \<Rightarrow> exn + string list" where
  "format_segments fmt [] = Inr []"
| "format_segments fmt (seg # rest) =
     (case format_segment fmt seg of
        Inl e \<Rightarrow> Inl e
      | Inr l \<Rightarrow> (case format_segments fmt rest of Inl e \<Rightarrow> Inl e | Inr ls \<Rightarrow> Inr (l # ls)))"

definition existing_text :: "string \<Rightarrow> string" where
  \<comment> \<open>line 65, applied to what \<open>f.read()\<close> returned\<close>
  "existing_text content = strip (last (py_split content marker))"

definition transcribe_body ::
  "'t whisper \<Rightarrow> ('t \<Rightarrow> string) \<Rightarrow> string \<Rightarrow> string \<Rightarrow> string \<Rightarrow> world
     \<Rightarrow> (exn \<times> string \<times> world) + ((bool \<times> string \<times> string) \<times> world)" where
  \<comment> \<open>the \<open>try\<close> block, lines 55-82. \<open>Inl (e, full_text, w)\<close>: exception \<open>e\<close> was raised
      when the local \<open>full_text\<close> and the world were as given.\<close>
  "transcribe_body model fmt file_path out_folder lang w =
     (let output_file_path = output_path_for file_path out_folder in
      if path_exists w output_file_path then
        (case read_text w output_file_path of
           Inl e \<Rightarrow> Inl (e, [], w)
         | Inr content \<Rightarrow> Inr ((True, output_file_path, existing_text content), w))
      else
        (let w1 = emit (Transcribe_call file_path lang) w in
         case model (fs w1) file_path lang of
           Inl e \<Rightarrow> Inl (e, [], w1)
         | Inr result \<Rightarrow>
             (let full_text = (case res_text result of None \<Rightarrow> [] | Some t \<Rightarrow> t) in
              case format_segments fmt
                     (case res_segments result of None \<Rightarrow> [] | Some segs \<Rightarrow> segs) of
                Inl e \<Rightarrow> Inl (e, full_text, w1)
              | Inr lines \<Rightarrow>
                  (case write_text w1 output_file_path (join ''\<newline>'' lines) of
                     Inl e \<Rightarrow> Inl (e, full_text, w1)
                   | Inr w2 \<Rightarrow> Inr ((True, output_file_path, full_text), w2)))))"

definition transcribe_audio ::
  "'t whisper \<Rightarrow> ('t \<Rightarrow> string) \<Rightarrow> string \<Rightarrow> string \<Rightarrow> string \<Rightarrow> world
     \<Rightarrow> exn + ((bool \<times> string \<times> string) \<times> world)" where
  \<comment> \<open>lines 52-85: the \<open>try\<close> block and its handler\<close>
  "transcribe_audio model fmt file_path out_folder lang w =
     (case transcribe_body model fmt file_path out_folder lang w of
        Inr r \<Rightarrow> Inr r
      | Inl (e, full_text, w') \<Rightarrow>
          Inr ((False, output_path_for file_path out_folder, full_text),
               say (Transcribe_failed (basename file_path) e) w'))"

section \<open>\<open>main\<close>\<close>

definition cleaned_path_for :: "args \<Rightarrow> string \<Rightarrow> string" where
  \<comment> \<open>lines 120, 143-144\<close>
  "cleaned_path_for a filename =
     (let cleaned_audio_folder = path_join (audio_folder a) ''cleaned'';
          base_name_no_ext = fst (splitext filename)
      in path_join cleaned_audio_folder (base_name_no_ext @ ''_cleaned.wav''))"

definition denoise_body ::
  "('t, 'a) env \<Rightarrow> string \<Rightarrow> string \<Rightarrow> world \<Rightarrow> exn + world" where
  \<comment> \<open>the \<open>try\<close> block, lines 143-151\<close>
  "denoise_body env file_path_original cleaned_audio_path w =
     (if \<not> path_exists w cleaned_audio_path then
        (case sf_read env (fs w) file_path_original of
           Inl e \<Rightarrow> Inl e
         | Inr (data, rate) \<Rightarrow>
             (case (if ndim env data > 1 then mean_axis1 env data else Inr data) of
                Inl e \<Rightarrow> Inl e
              | Inr data1 \<Rightarrow>
                  (case reduce_noise env data1 rate of
                     Inl e \<Rightarrow> Inl e
                   | Inr reduced_noise_data \<Rightarrow>
                       (case sf_write env (fs w) cleaned_audio_path reduced_noise_data rate of
                          Some e \<Rightarrow> Inl e
                        | None \<Rightarrow>
                            Inr (w\<lparr>fs := AList.update cleaned_audio_path Media (fs w)\<rparr>)))))
      else Inr w)"

definition clean_audio ::
  "('t, 'a) env \<Rightarrow> args \<Rightarrow> string \<Rightarrow> world \<Rightarrow> string \<times> world" where
  \<comment> \<open>lines 142-153: the path to transcribe, and the world\<close>
  "clean_audio env a filename w =
     (let file_path_original = path_join (audio_folder a) filename;
          cleaned_audio_path = cleaned_path_for a filename
      in case denoise_body env file_path_original cleaned_audio_path w of
           Inr w' \<Rightarrow> (cleaned_audio_path, w')
         | Inl e \<Rightarrow> (file_path_original, say (Denoise_failed filename e) w))"

definition summarized_layout :: "string \<Rightarrow> string \<Rightarrow> string" where
  \<comment> \<open>lines 171-174\<close>
  "summarized_layout summary original_content =
     ''--- RINGKASAN ---\<newline>'' @ (summary @ ''\<newline>\<newline>'')
       @ ''--- TRANSKRIPSI LENGKAP ---\<newline>'' @ original_content"

definition after_transcription ::
  "summarizer option \<Rightarrow> args \<Rightarrow> (bool \<times> string \<times> string) \<Rightarrow> world \<times> nat \<times> nat
     \<Rightarrow> exn + (world \<times> nat \<times> nat)" where
  \<comment> \<open>lines 158-176\<close>
  "after_transcription summarizer a r st =
     (case (r, st) of ((success, output_path, transcribed_text), (w, success_count, failure_count)) \<Rightarrow>
        if success then
          if summarize a \<and> transcribed_text \<noteq> [] then
            (case read_text w output_path of
               Inl e \<Rightarrow> Inl e
             | Inr original_content \<Rightarrow>
                 (case summarize_text transcribed_text summarizer 512 w of
                    Inl e \<Rightarrow> Inl e
                  | Inr (summary, w1) \<Rightarrow>
                      (case write_text w1 output_path (summarized_layout summary original_content) of
                         Inl e \<Rightarrow> Inl e
                       | Inr w2 \<Rightarrow> Inr (w2, success_count + 1, failure_count))))
          else Inr (w, success_count + 1, failure_count)
        else Inr (w, success_count, failure_count + 1))"

definition process_file ::
  "('t, 'a) env \<Rightarrow> 't whisper \<Rightarrow> summarizer option \<Rightarrow> args \<Rightarrow> string
     \<Rightarrow> world \<times> nat \<times> nat \<Rightarrow> exn + (world \<times> nat \<times> nat)" where
  \<comment> \<open>the loop body, lines 137-176, on the world and the two counters\<close>
  "process_file env model summarizer a filename st =
     (case st of (w, success_count, failure_count) \<Rightarrow>
        (let file_path_original = path_join (audio_folder a) filename;
             (file_to_transcribe, w1) =
                (if clean_noise a then clean_audio env a filename w else (file_path_original, w))
         in case transcribe_audio model (fmt2f env) file_to_transcribe (output_folder a)
                   (language a) w1 of
              Inl e \<Rightarrow> Inl e
            | Inr (r, w2) \<Rightarrow> after_transcription summarizer a r (w2, success_count, failure_count)))"

fun process_all ::
  "('t, 'a) env \<Rightarrow> 't whisper \<Rightarrow> summarizer option \<Rightarrow> args \<Rightarrow> string list
     \<Rightarrow> world \<times> nat \<times> nat \<Rightarrow> exn + (world \<times> nat \<times> nat)" where
  \<comment> \<open>the \<open>for\<close> loop of line 136\<close>
  "process_all env model summarizer a [] st = Inr st"
| "process_all env model summarizer a (filename # rest) st =
     (case process_file env model summarizer a filename st of
        Inl e \<Rightarrow> Inl e
      | Inr st' \<Rightarrow> process_all env model summarizer a rest st')"

definition SUPPORTED_EXTENSIONS :: "string list" where
  "SUPPORTED_EXTENSIONS = [''.mp3'', ''.wav'', ''.m4a'', ''.mp4'', ''.mov'', ''.avi'', ''.mkv'']"

definition is_supported :: "string \<Rightarrow> bool" where
  \<comment> \<open>\<open>f.lower().endswith(SUPPORTED_EXTENSIONS)\<close>\<close>
  "is_supported f = list_ex (endswith (lower f)) SUPPORTED_EXTENSIONS"

datatype outcome = Folder_missing | Nothing_to_do | Completed nat nat

definition load_summarizer ::
  "('t, 'a) env \<Rightarrow> args \<Rightarrow> string \<Rightarrow> world \<Rightarrow> exn + (summarizer option \<times> world)" where
  \<comment> \<open>lines 107-112\<close>
  "load_summarizer env a device w =
     (if summarize a then
        (let dev = (if device = ''cuda'' then 0 else - 1);
             w1 = emit (Load_pipeline dev) (say Loading_summarizer w)
         in case pipeline env dev of
              Inl e \<Rightarrow> Inl e
            | Inr summarizer \<Rightarrow> Inr (Some summarizer, say Summarizer_loaded w1))
      else Inr (None, w))"

definition prepare_folders :: "args \<Rightarrow> world \<Rightarrow> exn + world" where
  \<comment> \<open>lines 118-122\<close>
  "prepare_folders a w =
     (case makedirs w (output_folder a) of
        Inl e \<Rightarrow> Inl e
      | Inr w1 \<Rightarrow>
          (if clean_noise a then makedirs w1 (path_join (audio_folder a) ''cleaned'')
           else Inr w1))"

definition list_audio_files :: "('t, 'a) env \<Rightarrow> args \<Rightarrow> world \<Rightarrow> exn + string list" where
  \<comment> \<open>lines 124-125\<close>
  "list_audio_files env a w =
     (case listdir env (fs w) (audio_folder a) of
        Inl e \<Rightarrow> Inl e
      | Inr names \<Rightarrow> Inr (filter is_supported names))"

definition process_folder ::
  "('t, 'a) env \<Rightarrow> 't whisper \<Rightarrow> summarizer option \<Rightarrow> args \<Rightarrow> world \<Rightarrow> exn + (outcome \<times> world)" where
  \<comment> \<open>lines 114-181\<close>
  "process_folder env model summarizer a w =
     (if \<not> isdir w (audio_folder a) then
        Inr (Folder_missing, say (Folder_not_found (audio_folder a)) w)
      else
        (case prepare_folders a w of
           Inl e \<Rightarrow> Inl e
         | Inr w1 \<Rightarrow>
             (case list_audio_files env a w1 of
                Inl e \<Rightarrow> Inl e
              | Inr audio_files \<Rightarrow>
                  if audio_files = [] then
                    Inr (Nothing_to_do, say (No_media_found (audio_folder a)) w1)
                  else
                    (case process_all env model summarizer a audio_files
                            (say (Found_files (length audio_files)) w1, 0, 0) of
                       Inl e \<Rightarrow> Inl e
                     | Inr (w2, success_count, failure_count) \<Rightarrow>
                         Inr (Completed success_count failure_count,
                              say (Saved_in (output_folder a))
                                (say (Failed failure_count)
                                  (say (Succeeded success_count)
                                    (say Finished_banner w2))))))))"

definition main :: "('t, 'a) env \<Rightarrow> args \<Rightarrow> world \<Rightarrow> exn + (outcome \<times> world)" where
  \<comment> \<open>lines 99-181, after the arguments are parsed\<close>
  "main env a w =
     (let device = (if cuda_is_available env then ''cuda'' else ''cpu'');
          w1 = say (Loading_whisper (model_size a))
                 (say (Using_device (if cuda_is_available env then ''CUDA'' else ''CPU'')) w)
      in case load_model env (model_size a) device of
           Inl e \<Rightarrow> Inl e
         | Inr model \<Rightarrow>
             (case load_summarizer env a device
                     (say Whisper_loaded (emit (Load_whisper (model_size a) device) w1)) of
                Inl e \<Rightarrow> Inl e
              | Inr (summarizer, w2) \<Rightarrow> process_folder env model summarizer a w2))"

definition fs_after :: "exn + (outcome \<times> world) \<Rightarrow> fs" where
  \<comment> \<open>the file system a run leaves\<close>
  "fs_after r = (case r of Inr (out, w) \<Rightarrow> fs w | Inl e \<Rightarrow> [])"

definition events_after :: "exn + (outcome \<times> world) \<Rightarrow> event list" where
  "events_after r = (case r of Inr (out, w) \<Rightarrow> events w | Inl e \<Rightarrow> [])"

definition run_again ::
  "('t, 'a) env \<Rightarrow> args \<Rightarrow> exn + (outcome \<times> world) \<Rightarrow> exn + (outcome \<times> world)" where
  \<comment> \<open>a second run of \<open>main\<close> on the files the first run left, with a fresh console\<close>
  "run_again env a r =
     (case r of Inr (out, w) \<Rightarrow> main env a (w\<lparr>events := []\<rparr>) | Inl e \<Rightarrow> Inl e)"

section \<open>The marker, read as the spec reads it\<close>

fun after_last_occurrence :: "string \<Rightarrow> string \<Rightarrow> string" where
  \<comment> \<open>everything after the last occurrence of \<open>sep\<close> in the text; the whole text if
      \<open>sep\<close> does not occur\<close>
  "after_last_occurrence sep [] = []"
| "after_last_occurrence sep (c # cs) =
     (if sublist sep cs then after_last_occurrence sep cs
      else if prefix sep (c # cs) then drop (length sep) (c # cs)
      else c # cs)"

fun no_overlap :: "string \<Rightarrow> string \<Rightarrow> bool" where
  \<comment> \<open>no occurrence of \<open>sep\<close> starts inside another one\<close>
  "no_overlap sep [] = True"
| "no_overlap sep (c # cs) =
     ((\<not> prefix sep (c # cs) \<or> \<not> sublist sep (take (2 * length sep - 2) cs))
      \<and> no_overlap sep cs)"

section \<open>A stub environment\<close>

text \<open>
  One folder \<open>in\<close> with two media files and a text file. The stub model fails on
  \<open>bad.mp3\<close> and returns two segments otherwise; its time stamps are given by their
  two-decimal rendering. The stub audio reader fails on every file; the stub summarizer
  answers \<open>S1\<close> for each chunk.
\<close>

definition stub_whisper :: "string whisper" where
  "stub_whisper files file_path lang =
     (if file_path = ''in/bad.mp3'' then Inl (ServiceError ''decode'')
      else Inr \<lparr>res_text = Some '' hello world'',
                res_segments = Some
                  [\<lparr>seg_start = Some ''0.00'', seg_end = Some ''1.50'', seg_text = Some '' hello''\<rparr>,
                   \<lparr>seg_start = Some ''1.50'', seg_end = Some ''3.00'', seg_text = Some '' world''\<rparr>]\<rparr>)"

definition stub_summarizer :: summarizer where
  "stub_summarizer chunks = Inr (map (\<lambda>c. Some ''S1'') chunks)"

definition stub_env :: "(string, unit) env" where
  "stub_env =
     \<lparr>cuda_is_available = False,
      load_model = (\<lambda>size device. Inr stub_whisper),
      pipeline = (\<lambda>device. Inr stub_summarizer),
      listdir = (\<lambda>files folder. Inr [''a.mp3'', ''notes.txt'', ''bad.mp3'']),
      sf_read = (\<lambda>files file_path. Inl (ServiceError ''format'')),
      ndim = (\<lambda>data. 1),
      mean_axis1 = (\<lambda>data. Inr data),
      reduce_noise = (\<lambda>data rate. Inr data),
      sf_write = (\<lambda>files file_path data rate. None),
      fmt2f = (\<lambda>t. t)\<rparr>"

definition stub_args :: args where
  "stub_args =
     \<lparr>audio_folder = ''in'', output_folder = ''out'', model_size = ''medium'',
      language = ''id'', clean_noise = False, summarize = True\<rparr>"

definition stub_world :: world where
  "stub_world = \<lparr>fs = [(''in'', Dir)], events = []\<rparr>"

definition plain_artifact :: string where
  \<comment> \<open>what the stub model's two segments are formatted to\<close>
  "plain_artifact = ''[0.00s - 1.50s] hello\<newline>[1.50s - 3.00s] world''"


section \<open>Chunking: words are kept, in order, in bounded groups\<close>

lemma split_ws_words:
  "\<forall>c \<in> set acc. \<not> isspace c \<Longrightarrow> w \<in> set (split_ws acc s) \<Longrightarrow> is_word w"
proof (induction acc s rule: split_ws.induct)
  case (1 acc)
  then show ?case by (auto simp: is_word_def split: if_splits)
next
  case (2 acc c cs)
  show ?case
  proof (cases "isspace c")
    case True
    show ?thesis
    proof (cases "acc = []")
      case True
      with 2 \<open>isspace c\<close> show ?thesis by simp
    next
      case False
      with 2(5) \<open>isspace c\<close> have "w = rev acc \<or> w \<in> set (split_ws [] cs)" by simp
      then show ?thesis
      proof
        assume "w = rev acc"
        with False 2(4) show ?thesis by (simp add: is_word_def)
      next
        assume "w \<in> set (split_ws [] cs)"
        with 2(2) \<open>isspace c\<close> False show ?thesis by simp
      qed
    qed
  next
    case False
    with 2 show ?thesis by simp
  qed
qed

lemma py_split_ws_words: "\<forall>w \<in> set (py_split_ws s). is_word w"
  using split_ws_words [of "[]" _ s] by (simp add: py_split_ws_def)

lemma split_ws_nonspace:
  "\<forall>c \<in> set w. \<not> isspace c \<Longrightarrow> split_ws acc (w @ s) = split_ws (rev w @ acc) s"
  by (induction w arbitrary: acc) auto

lemma split_ws_join:
  "\<forall>w \<in> set ws. is_word w \<Longrightarrow> split_ws [] (join '' '' ws) = ws"
proof (induction "'' ''" ws rule: join.induct)
  case 1
  show ?case by simp
next
  case (2 x)
  then have "\<forall>c \<in> set x. \<not> isspace c" and "x \<noteq> []" by (auto simp: is_word_def)
  then show ?case using split_ws_nonspace [of x "[]" "[]"] by simp
next
  case (3 x y ys)
  then have x: "\<forall>c \<in> set x. \<not> isspace c" "x \<noteq> []" by (auto simp: is_word_def)
  have sp: "isspace CHR '' ''" by (simp add: isspace_def)
  have "split_ws [] (x @ '' '' @ join '' '' (y # ys)) = split_ws (rev x) ('' '' @ join '' '' (y # ys))"
    using split_ws_nonspace [OF x(1), of "[]"] by simp
  also have "\<dots> = x # split_ws [] (join '' '' (y # ys))"
    using x(2) sp by simp
  finally show ?case using 3 by simp
qed

lemma join_append:
  "xs \<noteq> [] \<Longrightarrow> ys \<noteq> [] \<Longrightarrow> join sep (xs @ ys) = join sep xs @ sep @ join sep ys"
  by (induction sep xs rule: join.induct) (auto simp: neq_Nil_conv)

lemma join_concat:
  "\<forall>g \<in> set gs. g \<noteq> [] \<Longrightarrow> join sep (map (join sep) gs) = join sep (concat gs)"
proof (induction gs)
  case Nil
  show ?case by simp
next
  case (Cons g gs)
  show ?case
  proof (cases gs)
    case Nil
    then show ?thesis by simp
  next
    case (Cons h hs)
    with Cons.prems have ne: "g \<noteq> []" "concat gs \<noteq> []" by auto
    have "join sep (map (join sep) (g # gs)) = join sep g @ sep @ join sep (map (join sep) gs)"
      using Cons by simp
    also have "\<dots> = join sep g @ sep @ join sep (concat gs)"
      using Cons.IH Cons.prems by simp
    also have "\<dots> = join sep (g @ concat gs)"
      using join_append [OF ne] by simp
    finally show ?thesis by simp
  qed
qed

lemma concat_slices:
  "concat (map (\<lambda>k. take L (drop (k * L) ws)) [0 ..< m]) = take (m * L) ws"
proof (induction m)
  case 0
  show ?case by simp
next
  case (Suc m)
  have "take (m * L) ws @ take L (drop (m * L) ws) = take (m * L + L) ws"
    by (simp add: take_add)
  with Suc show ?case by (simp add: add.commute)
qed

lemma ceil_covers: "0 < L \<Longrightarrow> n \<le> ((n + L - 1) div L) * (L::nat)"
proof -
  assume L: "0 < L"
  have "n + L - 1 = ((n + L - 1) div L) * L + (n + L - 1) mod L" by simp
  moreover have "(n + L - 1) mod L < L" using L by simp
  ultimately show ?thesis using L by linarith
qed

lemma ceil_tight: "0 < L \<Longrightarrow> k < (n + L - 1) div L \<Longrightarrow> k * L < (n::nat)"
proof -
  assume L: "0 < L" and k: "k < (n + L - 1) div L"
  then have "Suc k \<le> (n + L - 1) div L" by simp
  then have "Suc k * L \<le> ((n + L - 1) div L) * L" by (rule mult_le_mono1)
  also have "\<dots> \<le> n + L - 1" by simp
  finally show ?thesis using L by simp
qed


lemma slice_words:
  assumes "\<forall>w \<in> set ws. is_word w"
  shows "py_split_ws (join '' '' (slice ws i j)) = slice ws i j"
proof -
  have "\<forall>w \<in> set (slice ws i j). is_word w"
    using assms by (auto simp: slice_def dest: in_set_takeD in_set_dropD)
  then show ?thesis by (simp add: py_split_ws_def split_ws_join)
qed

text \<open>
  Claim C6. For every text \<open>T\<close> and every maximum chunk word-count \<open>L > 0\<close>, the chunking
  of \<open>summarize_text\<close> returns chunks which, joined with single spaces, have the
  whitespace-split word sequence of \<open>T\<close>; the words of the chunks, in order, are the
  words of \<open>T\<close>; every chunk has at most \<open>L\<close> words; and the empty text gives no chunk.
\<close>

theorem chunk_text_reconstructs:
  assumes "0 < L"
  shows "\<exists>chunks. chunk_text T L = Inr chunks
           \<and> py_split_ws (join '' '' chunks) = py_split_ws T
           \<and> concat (map py_split_ws chunks) = py_split_ws T
           \<and> (\<forall>c \<in> set chunks. int (length (py_split_ws c)) \<le> L)
           \<and> chunk_text [] L = Inr []"
proof -
  define ws where "ws = py_split_ws T"
  define n where "n = nat L"
  define m where "m = (length ws + n - 1) div n"
  define groups where "groups = map (\<lambda>k. take n (drop (k * n) ws)) [0 ..< m]"
  define chunks where "chunks = map (join '' '') groups"
  have n: "0 < n" using assms by (simp add: n_def)
  have words: "\<forall>w \<in> set ws. is_word w" by (simp add: ws_def py_split_ws_words)
  have ct: "chunk_text T L = Inr chunks"
  proof -
    have "py_range (length ws) L = Inr (map (\<lambda>k. k * n) [0 ..< m])"
      using assms by (simp add: py_range_def m_def n_def)
    then show ?thesis
      unfolding chunk_text_def Let_def ws_def [symmetric]
      by (simp add: chunks_def groups_def slice_def comp_def n_def)
  qed
  have cat: "concat groups = ws"
    using ceil_covers [OF n, of "length ws"] by (simp add: groups_def concat_slices m_def)
  have ne: "\<forall>g \<in> set groups. g \<noteq> []"
  proof
    fix g assume "g \<in> set groups"
    then obtain k where k: "k < m" "g = take n (drop (k * n) ws)"
      by (auto simp: groups_def)
    from k(1) have "k * n < length ws"
      unfolding m_def by (rule ceil_tight [OF n])
    with k(2) n show "g \<noteq> []" by simp
  qed
  have gw: "\<forall>g \<in> set groups. \<forall>w \<in> set g. is_word w"
    using words by (auto simp: groups_def dest: in_set_takeD in_set_dropD)
  have each: "\<forall>g \<in> set groups. py_split_ws (join '' '' g) = g"
    using gw by (simp add: py_split_ws_def split_ws_join)
  have "join '' '' chunks = join '' '' ws"
    using join_concat [OF ne] cat by (simp add: chunks_def)
  then have whole: "py_split_ws (join '' '' chunks) = ws"
    using words by (simp add: py_split_ws_def split_ws_join)
  have "map py_split_ws chunks = groups"
    using each by (simp add: chunks_def comp_def map_idI)
  then have pieces: "concat (map py_split_ws chunks) = ws" using cat by simp
  have bound: "\<forall>c \<in> set chunks. int (length (py_split_ws c)) \<le> L"
  proof
    fix c assume "c \<in> set chunks"
    then obtain g where g: "g \<in> set groups" "c = join '' '' g" by (auto simp: chunks_def)
    then have "py_split_ws c = g" using each by simp
    moreover have "length g \<le> n" using g(1) by (auto simp: groups_def)
    ultimately show "int (length (py_split_ws c)) \<le> L" using assms by (simp add: n_def)
  qed
  have empty: "chunk_text [] L = Inr []"
    using assms by (simp add: chunk_text_def py_range_def py_split_ws_def)
  from ct whole pieces bound empty show ?thesis by (auto simp: ws_def)
qed

theorem chunk_text_reconstructs_witness:
  "(0::int) < 2 \<and> (\<exists>chunks. chunk_text '' a b  c d e '' 2 = Inr chunks
           \<and> py_split_ws (join '' '' chunks) = py_split_ws '' a b  c d e ''
           \<and> concat (map py_split_ws chunks) = py_split_ws '' a b  c d e ''
           \<and> (\<forall>c \<in> set chunks. int (length (py_split_ws c)) \<le> 2)
           \<and> chunk_text [] 2 = Inr [])"
proof -
  have h: "(0::int) < 2" by simp
  from chunk_text_reconstructs [OF h, of "'' a b  c d e ''"] h show ?thesis by (rule_tac conjI)
qed

section \<open>The world: console output leaves the files alone\<close>

lemma fs_emit: "fs (emit e w) = fs w"
  by (simp add: emit_def)

lemma fs_say: "fs (say m w) = fs w"
  by (simp add: say_def fs_emit)

lemma events_emit: "events (emit e w) = events w @ [e]"
  by (simp add: emit_def)

lemma events_say: "events (say m w) = events w @ [Print m]"
  by (simp add: say_def events_emit)

lemma path_exists_fs: "fs w' = fs w \<Longrightarrow> path_exists w' p = path_exists w p"
  by (simp add: path_exists_def)

lemma read_text_fs: "fs w' = fs w \<Longrightarrow> read_text w' p = read_text w p"
  by (simp add: read_text_def)




section \<open>\<open>summarize_text\<close> returns, and writes nothing\<close>


section \<open>\<open>transcribe_audio\<close>\<close>



lemma transcribe_audio_failure_fs:
  assumes "transcribe_audio model fmt file_path out lang w = Inr ((False, p, t), w')"
  shows "fs w' = fs w"
  using assms
  by (auto simp: transcribe_audio_def transcribe_body_def Let_def fs_say fs_emit
      split: sum.splits if_splits)

section \<open>One file, all files\<close>





section \<open>The counters\<close>




section \<open>\<open>transcribe_audio\<close> at its boundary\<close>



section \<open>A failing speech-recognition call\<close>





section \<open>A failing denoise step\<close>




section \<open>A missing input folder\<close>




section \<open>The summarized layout\<close>






section \<open>What the summary is computed from\<close>






section \<open>Splitting at the marker\<close>

lemma split_on_not_Nil: "split_on sep acc s \<noteq> []"
  by (induction sep acc s rule: split_on.induct) auto

lemma prefix_drop_decomp: "prefix sep s \<Longrightarrow> s = sep @ drop (length sep) s"
  by (auto simp: prefix_def)

lemma last_split_on:
  assumes "sep \<noteq> []"
  shows "if sublist sep s
         then (\<exists>pre. s = pre @ sep @ last (split_on sep acc s))
              \<and> \<not> sublist sep (last (split_on sep acc s))
         else last (split_on sep acc s) = rev acc @ s"
  using assms
proof (induction sep acc s rule: split_on.induct)
  case (1 sep acc)
  then show ?case by simp
next
  case (2 sep acc c cs)
  let ?rest = "drop (length sep - 1) cs"
  show ?case
  proof (cases "prefix sep (c # cs)")
    case True
    then have dec: "c # cs = sep @ ?rest"
      using prefix_drop_decomp [OF True] "2.prems" by (cases sep) auto
    have l: "last (split_on sep acc (c # cs)) = last (split_on sep [] ?rest)"
      using True "2.prems" by (simp add: split_on_not_Nil)
    have sub: "sublist sep (c # cs)" using True by (rule prefix_imp_sublist)
    from "2.IH"(1) True "2.prems"
    have IH: "if sublist sep ?rest
         then (\<exists>pre. ?rest = pre @ sep @ last (split_on sep [] ?rest))
              \<and> \<not> sublist sep (last (split_on sep [] ?rest))
         else last (split_on sep [] ?rest) = rev [] @ ?rest"
      by simp
    show ?thesis
    proof (cases "sublist sep ?rest")
      case True
      with IH obtain pre where "?rest = pre @ sep @ last (split_on sep [] ?rest)"
        and "\<not> sublist sep (last (split_on sep [] ?rest))" by auto
      then have "c # cs = (sep @ pre) @ sep @ last (split_on sep [] ?rest)"
        using dec by simp
      with \<open>\<not> sublist sep (last (split_on sep [] ?rest))\<close> sub l show ?thesis
        by (metis (full_types))
    next
      case False
      with IH have "last (split_on sep [] ?rest) = ?rest" by simp
      with dec False sub l show ?thesis by (metis (full_types) append_Nil)
    qed
  next
    case False
    then have l: "split_on sep acc (c # cs) = split_on sep (c # acc) cs" by simp
    have s: "sublist sep (c # cs) \<longleftrightarrow> sublist sep cs"
      using False by (simp add: sublist_Cons_right)
    from "2.IH"(2) False "2.prems"
    have IH: "if sublist sep cs
         then (\<exists>pre. cs = pre @ sep @ last (split_on sep (c # acc) cs))
              \<and> \<not> sublist sep (last (split_on sep (c # acc) cs))
         else last (split_on sep (c # acc) cs) = rev (c # acc) @ cs"
      by simp
    show ?thesis
    proof (cases "sublist sep cs")
      case True
      with IH obtain pre where "cs = pre @ sep @ last (split_on sep (c # acc) cs)"
        and n: "\<not> sublist sep (last (split_on sep (c # acc) cs))" by auto
      then have "c # cs = (c # pre) @ sep @ last (split_on sep (c # acc) cs)" by simp
      with n True s l show ?thesis by (metis (full_types))
    next
      case False
      with IH s l show ?thesis by simp
    qed
  qed
qed

lemma after_last_occurrence_absent: "\<not> sublist sep s \<Longrightarrow> after_last_occurrence sep s = s"
  by (cases s) (auto simp: sublist_Cons_right)

lemma after_last_occurrence_append:
  "sublist sep ys \<Longrightarrow> after_last_occurrence sep (xs @ ys) = after_last_occurrence sep ys"
proof (induction xs)
  case Nil
  show ?case by simp
next
  case (Cons x xs)
  from Cons.prems have "sublist sep (xs @ ys)"
    by (meson sublist_append)
  with Cons show ?case by simp
qed

lemma no_overlap_drop: "no_overlap sep s \<Longrightarrow> no_overlap sep (drop k s)"
proof (induction s arbitrary: k)
  case Nil
  show ?case by simp
next
  case (Cons c cs)
  then show ?case by (cases k) auto
qed

lemma sublist_near_or_far:
  assumes "sublist sep cs"
  shows "sublist sep (take (2 * length sep - 2) cs) \<or> sublist sep (drop (length sep - 1) cs)"
proof -
  from assms obtain ps ss where cs: "cs = ps @ sep @ ss" by (auto simp: sublist_def)
  show ?thesis
  proof (cases "length ps + length sep \<le> 2 * length sep - 2")
    case True
    then have "take (2 * length sep - 2) cs
                 = ps @ sep @ take (2 * length sep - 2 - length ps - length sep) ss"
      by (simp add: cs)
    then show ?thesis by (metis sublist_appendI)
  next
    case False
    then have "length sep - 1 \<le> length ps" by simp
    then have "drop (length sep - 1) cs = drop (length sep - 1) ps @ sep @ ss"
      by (simp add: cs)
    then show ?thesis by (metis sublist_appendI)
  qed
qed

lemma last_split_on_no_overlap:
  assumes "sep \<noteq> []" and "no_overlap sep s"
  shows "last (split_on sep acc s)
           = (if sublist sep s then after_last_occurrence sep s else rev acc @ s)"
  using assms
proof (induction sep acc s rule: split_on.induct)
  case (1 sep acc)
  then show ?case by simp
next
  case (2 sep acc c cs)
  let ?rest = "drop (length sep - 1) cs"
  show ?case
  proof (cases "prefix sep (c # cs)")
    case True
    then have dec: "c # cs = sep @ ?rest"
      using prefix_drop_decomp [OF True] "2.prems" by (cases sep) auto
    have l: "last (split_on sep acc (c # cs)) = last (split_on sep [] ?rest)"
      using True "2.prems" by (simp add: split_on_not_Nil)
    have sub: "sublist sep (c # cs)" using True by (rule prefix_imp_sublist)
    have no: "no_overlap sep ?rest"
      using "2.prems"(2) by (simp add: no_overlap_drop)
    from "2.IH"(1) True "2.prems"(1) no
    have IH: "last (split_on sep [] ?rest)
           = (if sublist sep ?rest then after_last_occurrence sep ?rest else ?rest)"
      by simp
    show ?thesis
    proof (cases "sublist sep ?rest")
      case True
      then have "after_last_occurrence sep (sep @ ?rest) = after_last_occurrence sep ?rest"
        by (rule after_last_occurrence_append)
      with dec have "after_last_occurrence sep (c # cs) = after_last_occurrence sep ?rest"
        by simp
      with IH True sub l show ?thesis by simp
    next
      case False
      have near: "\<not> sublist sep (take (2 * length sep - 2) cs)"
        using "2.prems"(2) True by simp
      with False sublist_near_or_far [of sep cs] have "\<not> sublist sep cs" by blast
      then have "after_last_occurrence sep (c # cs) = drop (length sep) (c # cs)"
        using True by simp
      also have "\<dots> = ?rest" using "2.prems"(1) by (cases sep) auto
      finally show ?thesis using IH False sub l by simp
    qed
  next
    case False
    then have l: "split_on sep acc (c # cs) = split_on sep (c # acc) cs" by simp
    have s: "sublist sep (c # cs) \<longleftrightarrow> sublist sep cs"
      using False by (simp add: sublist_Cons_right)
    from "2.IH"(2) False "2.prems"
    have IH: "last (split_on sep (c # acc) cs)
           = (if sublist sep cs then after_last_occurrence sep cs else rev (c # acc) @ cs)"
      by simp
    show ?thesis using IH s l False by simp
  qed
qed

lemma marker_not_Nil: "marker \<noteq> []"
  by (simp add: marker_def)


text \<open>
  Claim C9, as stated, takes the text after the last occurrence of the marker in the
  file. \<open>str.split\<close> scans from the left and skips each match, so an occurrence that
  starts inside an earlier match is not seen: in the artifact below the marker occurs
  at offsets 0 and 24, nothing follows the last occurrence, and the reused text is what
  follows the first one.
\<close>

theorem reused_text_not_after_last_occurrence:
  "transcribe_audio stub_whisper (\<lambda>t. t) ''in/a.mp3'' ''out'' ''id''
      \<lparr>fs = [(''out/a.txt'', Text ''--- TRANSKRIPSI LENGKAP --- TRANSKRIPSI LENGKAP ---'')],
       events = []\<rparr>
     = Inr ((True, ''out/a.txt'', ''TRANSKRIPSI LENGKAP ---''),
            \<lparr>fs = [(''out/a.txt'', Text ''--- TRANSKRIPSI LENGKAP --- TRANSKRIPSI LENGKAP ---'')],
             events = []\<rparr>)
   \<and> drop 24 ''--- TRANSKRIPSI LENGKAP --- TRANSKRIPSI LENGKAP ---'' = marker
   \<and> strip (after_last_occurrence marker ''--- TRANSKRIPSI LENGKAP --- TRANSKRIPSI LENGKAP ---'')
     = []"
  by code_simp

text \<open>
  Claim C9, amended. When an output artifact exists and can be read, the model is not
  called and the text reused as the transcript is the stripped last piece of the split
  of the file's text at the marker \<open>--- TRANSKRIPSI LENGKAP ---\<close>, scanning from the left
  without overlaps: the whole text if the marker is absent, otherwise what follows an
  occurrence of the marker and contains no further occurrence; it is everything after
  the last occurrence whenever no occurrence of the marker starts inside another one.
  If the stripped remainder is empty, the file counts as a success and the summarization
  pass is skipped, even when enabled: nothing is printed, called or written.
\<close>

theorem reused_text_after_marker:
  assumes "path_exists w (output_path_for file_path out)"
    and "read_text w (output_path_for file_path out) = Inr content"
  shows "transcribe_audio model fmt file_path out lang w
           = Inr ((True, output_path_for file_path out, existing_text content), w)
       \<and> (\<exists>r. existing_text content = strip r
             \<and> (if sublist marker content
                 then (\<exists>pre. content = pre @ marker @ r) \<and> \<not> sublist marker r
                 else r = content))
       \<and> (no_overlap marker content \<longrightarrow>
             existing_text content = strip (after_last_occurrence marker content))
       \<and> (existing_text content = [] \<longrightarrow>
             after_transcription sm a
                 (True, output_path_for file_path out, existing_text content) (w, s, f)
               = Inr (w, s + 1, f))"
proof (intro conjI impI)
  show "transcribe_audio model fmt file_path out lang w
           = Inr ((True, output_path_for file_path out, existing_text content), w)"
    using assms by (simp add: transcribe_audio_def transcribe_body_def Let_def)
  show "\<exists>r. existing_text content = strip r
             \<and> (if sublist marker content
                 then (\<exists>pre. content = pre @ marker @ r) \<and> \<not> sublist marker r
                 else r = content)"
    using last_split_on [OF marker_not_Nil, of content "[]"]
    by (intro exI [of _ "last (split_on marker [] content)"])
       (simp add: existing_text_def py_split_def)
next
  assume "no_overlap marker content"
  from last_split_on_no_overlap [OF marker_not_Nil this, of "[]"]
  show "existing_text content = strip (after_last_occurrence marker content)"
    by (simp add: existing_text_def py_split_def after_last_occurrence_absent)
next
  assume "existing_text content = []"
  then show "after_transcription sm a
                 (True, output_path_for file_path out, existing_text content) (w, s, f)
               = Inr (w, s + 1, f)"
    by (simp add: after_transcription_def)
qed

theorem reused_text_after_marker_witness:
  "path_exists \<lparr>fs = [(''out/a.txt'', Text ''--- RINGKASAN ---\<newline>S1\<newline>\<newline>--- TRANSKRIPSI LENGKAP ---\<newline>'')], events = []\<rparr>
       (output_path_for ''in/a.mp3'' ''out'')
   \<and> read_text \<lparr>fs = [(''out/a.txt'', Text ''--- RINGKASAN ---\<newline>S1\<newline>\<newline>--- TRANSKRIPSI LENGKAP ---\<newline>'')], events = []\<rparr>
       (output_path_for ''in/a.mp3'' ''out'')
       = Inr ''--- RINGKASAN ---\<newline>S1\<newline>\<newline>--- TRANSKRIPSI LENGKAP ---\<newline>''
   \<and> no_overlap marker ''--- RINGKASAN ---\<newline>S1\<newline>\<newline>--- TRANSKRIPSI LENGKAP ---\<newline>''
   \<and> existing_text ''--- RINGKASAN ---\<newline>S1\<newline>\<newline>--- TRANSKRIPSI LENGKAP ---\<newline>'' = []
   \<and> transcribe_audio stub_whisper (\<lambda>t. t) ''in/a.mp3'' ''out'' ''id''
        \<lparr>fs = [(''out/a.txt'', Text ''--- RINGKASAN ---\<newline>S1\<newline>\<newline>--- TRANSKRIPSI LENGKAP ---\<newline>'')], events = []\<rparr>
       = Inr ((True, ''out/a.txt'', []),
              \<lparr>fs = [(''out/a.txt'', Text ''--- RINGKASAN ---\<newline>S1\<newline>\<newline>--- TRANSKRIPSI LENGKAP ---\<newline>'')], events = []\<rparr>)
   \<and> [] = strip (after_last_occurrence marker
                    ''--- RINGKASAN ---\<newline>S1\<newline>\<newline>--- TRANSKRIPSI LENGKAP ---\<newline>'')
   \<and> after_transcription (Some stub_summarizer) stub_args (True, ''out/a.txt'', [])
        (\<lparr>fs = [(''out/a.txt'', Text ''--- RINGKASAN ---\<newline>S1\<newline>\<newline>--- TRANSKRIPSI LENGKAP ---\<newline>'')], events = []\<rparr>, 0, 0)
       = Inr (\<lparr>fs = [(''out/a.txt'', Text ''--- RINGKASAN ---\<newline>S1\<newline>\<newline>--- TRANSKRIPSI LENGKAP ---\<newline>'')], events = []\<rparr>, 0 + 1, 0)"
proof -
  let ?c = "''--- RINGKASAN ---\<newline>S1\<newline>\<newline>--- TRANSKRIPSI LENGKAP ---\<newline>''"
  let ?w = "\<lparr>fs = [(''out/a.txt'', Text ?c)], events = []\<rparr>"
  have h1: "path_exists ?w (output_path_for ''in/a.mp3'' ''out'')" by code_simp
  have h2: "read_text ?w (output_path_for ''in/a.mp3'' ''out'') = Inr ?c" by code_simp
  have h3: "no_overlap marker ?c" by code_simp
  have h4: "existing_text ?c = []" by code_simp
  have p: "output_path_for ''in/a.mp3'' ''out'' = ''out/a.txt''" by code_simp
  note inst = reused_text_after_marker [where model = stub_whisper and fmt = "\<lambda>t. t"
      and lang = "''id''" and sm = "Some stub_summarizer" and a = stub_args and s = 0 and f = 0,
      OF h1 h2]
  from inst have a: "transcribe_audio stub_whisper (\<lambda>t. t) ''in/a.mp3'' ''out'' ''id'' ?w
       = Inr ((True, ''out/a.txt'', []), ?w)"
    by (simp add: p h4)
  from inst h3 have b: "[] = strip (after_last_occurrence marker ?c)"
    by (simp add: h4)
  from inst h4 have c: "after_transcription (Some stub_summarizer) stub_args
        (True, ''out/a.txt'', []) (?w, 0, 0) = Inr (?w, 0 + 1, 0)"
    by (simp add: p)
  from h1 h2 h3 h4 a b c show ?thesis by blast
qed

section \<open>Running twice\<close>

text \<open>
  Claim C1 asks that a second run with the same flags leaves byte-identical artifacts,
  also with \<open>--summarize\<close>. On the stub folder the first run with \<open>--summarize\<close> writes the
  summarized layout for \<open>a.mp3\<close>. The second run does not call the model for \<open>a.mp3\<close>,
  but it summarizes the text after the marker again and rewrites the artifact as a new
  summary block followed by the whole previous file, so the artifact grows at each run.
\<close>

theorem second_run_with_summarize_rewrites_artifact:
  "map_of (fs_after (main stub_env stub_args stub_world)) ''out/a.txt''
     = Some (Text (''--- RINGKASAN ---\<newline>S1\<newline>\<newline>--- TRANSKRIPSI LENGKAP ---\<newline>''
                   @ plain_artifact))
   \<and> map_of (fs_after (run_again stub_env stub_args (main stub_env stub_args stub_world)))
        ''out/a.txt''
     = Some (Text (''--- RINGKASAN ---\<newline>S1\<newline>\<newline>--- TRANSKRIPSI LENGKAP ---\<newline>''
                   @ ''--- RINGKASAN ---\<newline>S1\<newline>\<newline>--- TRANSKRIPSI LENGKAP ---\<newline>''
                   @ plain_artifact))
   \<and> events_after (run_again stub_env stub_args (main stub_env stub_args stub_world))
     = [Print (Using_device ''CPU''), Print (Loading_whisper ''medium''),
        Load_whisper ''medium'' ''cpu'', Print Whisper_loaded,
        Print Loading_summarizer, Load_pipeline (- 1), Print Summarizer_loaded,
        Print (Found_files 2),
        Print Summarizing,
        Summarizer_call [''[0.00s - 1.50s] hello [1.50s - 3.00s] world''],
        Print Summary_done,
        Transcribe_call ''in/bad.mp3'' ''id'',
        Print (Transcribe_failed ''bad.mp3'' (ServiceError ''decode'')),
        Print Finished_banner, Print (Succeeded 1), Print (Failed 1),
        Print (Saved_in ''out'')]"
  by code_simp

end
